theory Spec2Isabelle
  imports Main
begin

section \<open>The SSA program graph read by the legacy analyzer\<close>

text \<open>
  The analyzer of \<^verbatim>\<open>pkg/analyzer/legacy.go\<close> walks the SSA form built by
  \<^verbatim>\<open>golang.org/x/tools/go/ssa\<close>. The graph is cyclic (an instruction points to its
  referrers, a call to the body of its callee), so instructions live in a store indexed by
  an identity (\<open>iref\<close>); everything else is embedded by value and carries exactly what the
  analyzer reads from it.
\<close>

type_synonym iref = nat
type_synonym pos = nat

text \<open>\<^verbatim>\<open>go/types.Type\<close>, up to \<^verbatim>\<open>types.Identical\<close>: equality of the terms below.\<close>

datatype gotype =
    Named string string
  | Pointer gotype
  | OtherType string

text \<open>\<^verbatim>\<open>ssa.BasicBlock\<close>: the analyzer reads \<^verbatim>\<open>b.Instrs\<close> only.\<close>

record basicBlock =
  Instrs :: "iref list"

text \<open>
  \<^verbatim>\<open>ssa.Function\<close>: \<^verbatim>\<open>f.Blocks\<close> and the type of \<^verbatim>\<open>f.Signature.Recv()\<close>
  (\<open>None\<close> when the function has no receiver).
\<close>

record func =
  Blocks :: "basicBlock list"
  Recv :: "gotype option"

text \<open>
  \<^verbatim>\<open>ssa.Value\<close>. The dynamic type of the value is \<open>kind\<close>: the analyzer tests for
  \<^verbatim>\<open>*ssa.Function\<close> and \<^verbatim>\<open>*ssa.FieldAddr\<close>, and \<^verbatim>\<open>CallCommon.StaticCallee\<close> tests
  for \<^verbatim>\<open>*ssa.Function\<close> and \<^verbatim>\<open>*ssa.MakeClosure\<close> (whose \<^verbatim>\<open>Fn\<close> is always a function).
  \<^verbatim>\<open>Referrers()\<close> returns a pointer to a slice, which is nil for named functions,
  builtins, constants and globals: \<open>None\<close>.
\<close>

datatype vkind =
    IsFunction func
  | IsMakeClosure func
  | IsFieldAddr
  | IsOther

record val =
  Name :: string
  Type :: gotype
  Referrers :: "iref list option"
  kind :: vkind

text \<open>
  \<^verbatim>\<open>ssa.CallCommon\<close>: \<^verbatim>\<open>Value\<close> is an interface value that the analyzer compares with
  nil; \<^verbatim>\<open>Method\<close> is a \<^verbatim>\<open>*types.Func\<close>, of which only the name is read.
\<close>

record callCommon =
  Value :: "val option"
  Method :: "string option"

text \<open>
  \<^verbatim>\<open>ssa.Instruction\<close>, with the operands the analyzer reads:
  the call of \<^verbatim>\<open>Defer\<close> and \<^verbatim>\<open>Call\<close>, the address of \<^verbatim>\<open>Store\<close>, the type and the
  referrers of \<^verbatim>\<open>UnOp\<close>, the referrers of \<^verbatim>\<open>FieldAddr\<close>, the results of
  \<^verbatim>\<open>Return\<close> and the function value of \<^verbatim>\<open>MakeClosure\<close>. Referrers of an instruction
  are never a nil pointer.
\<close>

datatype instruction =
    Defer callCommon
  | Call callCommon
  | Phi
  | MakeInterface
  | Store val
  | UnOp gotype "iref list"
  | FieldAddr "iref list"
  | Return "val list"
  | MakeClosure val
  | OtherInstr

text \<open>
  The part of \<^verbatim>\<open>buildssa.SSA\<close> that is read: the source functions, and the store that
  resolves an instruction identity to the instruction and to its \<^verbatim>\<open>Pos()\<close>.
\<close>

record ssa =
  SrcFuncs :: "func list"
  instrAt :: "iref \<Rightarrow> instruction"
  Pos :: "iref \<Rightarrow> pos"

section \<open>Actions and outcomes\<close>

datatype action =
    actionUnhandled
  | actionHandled
  | actionReturned
  | actionPassed
  | actionClosed
  | actionUnvaluedCall
  | actionUnvaluedDefer
  | actionNoOp

text \<open>
  A Go call returns a value, panics (nil dereference), or does not return because the
  recursion never ends. The model bounds the nesting depth of the recursive walks by a
  fuel argument; \<open>OutOfFuel\<close> is the outcome of a walk that needs a deeper nesting.
\<close>

datatype 'a result = Ok 'a | Panic | OutOfFuel

definition closeMethod :: string where
  "closeMethod = ''Close''"

definition sqlPackages :: "string list" where
  "sqlPackages =
     [''database/sql'', ''github.com/jmoiron/sqlx'', ''github.com/jackc/pgx/v5'',
      ''github.com/jackc/pgx/v5/pgxpool'']"

text \<open>
  \<^verbatim>\<open>CallCommon.StaticCallee\<close> of go/ssa: the function when the value is a function or a
  closure over one, nil otherwise (also for a nil value).
\<close>

definition StaticCallee :: "callCommon \<Rightarrow> func option" where
  "StaticCallee c =
     (case Value c of
        None \<Rightarrow> None
      | Some v \<Rightarrow>
          (case kind v of
             IsFunction f \<Rightarrow> Some f
           | IsMakeClosure f \<Rightarrow> Some f
           | _ \<Rightarrow> None))"

text \<open>
  The type switch on an element of \<^verbatim>\<open>targetTypes\<close> in the \<^verbatim>\<open>UnOp\<close> and \<^verbatim>\<open>Return\<close>
  cases: pointers and named types are compared, any other element is skipped.
\<close>

fun comparable :: "gotype \<Rightarrow> bool" where
  "comparable (Pointer t) = True"
| "comparable (Named p n) = True"
| "comparable (OtherType s) = False"

text \<open>
  \<^verbatim>\<open>isTarget\<close> of the \<^verbatim>\<open>Call\<close> case. \<open>isTargetType\<close> is a helper of the package that is
  declared in another file; it is a parameter here.
\<close>

definition isTargetCall ::
  "(gotype \<Rightarrow> gotype list \<Rightarrow> bool) \<Rightarrow> callCommon \<Rightarrow> val \<Rightarrow> gotype list \<Rightarrow> bool" where
  "isTargetCall isTargetType c v targetTypes =
     (case StaticCallee c of
        Some f \<Rightarrow>
          (case Recv f of
             Some receiverType \<Rightarrow> isTargetType receiverType targetTypes
           | None \<Rightarrow> False)
      | None \<Rightarrow> isTargetType (Type v) targetTypes)"

text \<open>The \<^verbatim>\<open>Return\<close> case: some result has a type identical to a compared target type.\<close>

definition returnsTarget :: "val list \<Rightarrow> gotype list \<Rightarrow> bool" where
  "returnsTarget results targetTypes =
     list_ex (\<lambda>res. list_ex (\<lambda>tt. comparable tt \<and> Type res = tt) targetTypes) results"

section \<open>isClosed and getAction\<close>

text \<open>
  \<open>isClosed\<close> and \<open>getAction\<close> of the source, with the three loops of \<open>getAction\<close> that
  call \<open>isClosed\<close> as functions of their own: \<open>anyBlockClosed\<close> is
  \<^verbatim>\<open>for _, b := range blocks { if isClosed(&b.Instrs, targetTypes) { return ... } }\<close>,
  \<open>storeClosures\<close> the loop over the referrers of a store's address, and \<open>unOpTargets\<close> the
  loop over the target types in the \<^verbatim>\<open>UnOp\<close> case. Each loop yields \<open>Ok True\<close> when
  it takes its \<^verbatim>\<open>return\<close>. The fuel is the nesting depth of \<open>isClosed\<close> that is left.

  The \<^verbatim>\<open>Defer\<close> and \<^verbatim>\<open>Call\<close> cases start with a log statement whose argument is
  \<^verbatim>\<open>instr.Call.Value.Name()\<close>: with a nil value the call panics there, before the nil
  checks that follow, so the \<^verbatim>\<open>return actionUnvaluedCall\<close> behind
  \<^verbatim>\<open>instr.Call.Value == nil\<close> is never reached. \<^verbatim>\<open>*instr.Addr.Referrers()\<close> in the
  \<^verbatim>\<open>Store\<close> case panics when the pointer is nil. The other log statements have no
  effect on the result and are left out.
\<close>

function
  isClosed :: "nat \<Rightarrow> ssa \<Rightarrow> (gotype \<Rightarrow> gotype list \<Rightarrow> bool) \<Rightarrow> iref list \<Rightarrow> gotype list \<Rightarrow> bool result"
and
  getAction :: "nat \<Rightarrow> ssa \<Rightarrow> (gotype \<Rightarrow> gotype list \<Rightarrow> bool) \<Rightarrow> instruction \<Rightarrow> gotype list \<Rightarrow> action result"
and
  anyBlockClosed :: "nat \<Rightarrow> ssa \<Rightarrow> (gotype \<Rightarrow> gotype list \<Rightarrow> bool) \<Rightarrow> basicBlock list \<Rightarrow> gotype list \<Rightarrow> bool result"
and
  storeClosures :: "nat \<Rightarrow> ssa \<Rightarrow> (gotype \<Rightarrow> gotype list \<Rightarrow> bool) \<Rightarrow> iref list \<Rightarrow> gotype list \<Rightarrow> bool result"
and
  unOpTargets :: "nat \<Rightarrow> ssa \<Rightarrow> (gotype \<Rightarrow> gotype list \<Rightarrow> bool) \<Rightarrow> gotype \<Rightarrow> iref list \<Rightarrow> gotype list \<Rightarrow> gotype list \<Rightarrow> bool result"
where
  "isClosed 0 P isTargetType refs targetTypes = OutOfFuel"
| "isClosed (Suc n) P isTargetType [] targetTypes = Ok False"
| "isClosed (Suc n) P isTargetType (r # refs) targetTypes =
     (case getAction n P isTargetType (instrAt P r) targetTypes of
        Ok actionClosed \<Rightarrow> Ok True
      | Ok actionHandled \<Rightarrow> Ok True
      | Ok actionReturned \<Rightarrow> isClosed (Suc n) P isTargetType refs targetTypes
      | Ok actionUnhandled \<Rightarrow> isClosed (Suc n) P isTargetType refs targetTypes
      | Ok actionPassed \<Rightarrow> isClosed (Suc n) P isTargetType refs targetTypes
      | Ok actionUnvaluedCall \<Rightarrow> isClosed (Suc n) P isTargetType refs targetTypes
      | Ok actionUnvaluedDefer \<Rightarrow> isClosed (Suc n) P isTargetType refs targetTypes
      | Ok actionNoOp \<Rightarrow> isClosed (Suc n) P isTargetType refs targetTypes
      | Panic \<Rightarrow> Panic
      | OutOfFuel \<Rightarrow> OutOfFuel)"
| "getAction n P isTargetType (Defer c) targetTypes =
     (case Value c of
        None \<Rightarrow> Panic
      | Some v \<Rightarrow>
          if Name v = closeMethod then Ok actionClosed
          else
            (case Method c of
               Some m \<Rightarrow> if m = closeMethod then Ok actionClosed else Ok actionUnvaluedDefer
             | None \<Rightarrow>
                 (case kind v of
                    IsFunction f \<Rightarrow>
                      (case anyBlockClosed n P isTargetType (Blocks f) targetTypes of
                         Ok True \<Rightarrow> Ok actionClosed
                       | Ok False \<Rightarrow> Ok actionUnvaluedDefer
                       | Panic \<Rightarrow> Panic
                       | OutOfFuel \<Rightarrow> OutOfFuel)
                  | _ \<Rightarrow> Ok actionUnvaluedDefer)))"
| "getAction n P isTargetType (Call c) targetTypes =
     (case Value c of
        None \<Rightarrow> Panic
      | Some v \<Rightarrow>
          if isTargetCall isTargetType c v targetTypes \<and> Name v = closeMethod then Ok actionClosed
          else if \<not> isTargetCall isTargetType c v targetTypes then
            (case StaticCallee c of
               None \<Rightarrow> Ok actionUnhandled
             | Some staticCallee \<Rightarrow>
                 (case anyBlockClosed n P isTargetType (Blocks staticCallee) targetTypes of
                    Ok True \<Rightarrow> Ok actionClosed
                  | Ok False \<Rightarrow> Ok actionUnhandled
                  | Panic \<Rightarrow> Panic
                  | OutOfFuel \<Rightarrow> OutOfFuel))
          else Ok actionUnhandled)"
| "getAction n P isTargetType Phi targetTypes = Ok actionPassed"
| "getAction n P isTargetType MakeInterface targetTypes = Ok actionPassed"
| "getAction n P isTargetType (Store addr) targetTypes =
     (if kind addr = IsFieldAddr then Ok actionReturned
      else
        (case Referrers addr of
           None \<Rightarrow> Panic
         | Some addrRefs \<Rightarrow>
             if length addrRefs = 0 then Ok actionNoOp
             else
               (case storeClosures n P isTargetType addrRefs targetTypes of
                  Ok True \<Rightarrow> Ok actionHandled
                | Ok False \<Rightarrow> Ok actionUnhandled
                | Panic \<Rightarrow> Panic
                | OutOfFuel \<Rightarrow> OutOfFuel)))"
| "getAction n P isTargetType (UnOp instrType refs) targetTypes =
     (case unOpTargets n P isTargetType instrType refs targetTypes targetTypes of
        Ok True \<Rightarrow> Ok actionHandled
      | Ok False \<Rightarrow> Ok actionUnhandled
      | Panic \<Rightarrow> Panic
      | OutOfFuel \<Rightarrow> OutOfFuel)"
| "getAction n P isTargetType (FieldAddr refs) targetTypes =
     (case isClosed n P isTargetType refs targetTypes of
        Ok True \<Rightarrow> Ok actionHandled
      | Ok False \<Rightarrow> Ok actionUnhandled
      | Panic \<Rightarrow> Panic
      | OutOfFuel \<Rightarrow> OutOfFuel)"
| "getAction n P isTargetType (Return results) targetTypes =
     (if returnsTarget results targetTypes then Ok actionReturned else Ok actionUnhandled)"
| "getAction n P isTargetType (MakeClosure fn) targetTypes = Ok actionUnhandled"
| "getAction n P isTargetType OtherInstr targetTypes = Ok actionUnhandled"
| "anyBlockClosed n P isTargetType [] targetTypes = Ok False"
| "anyBlockClosed n P isTargetType (b # blocks) targetTypes =
     (case isClosed n P isTargetType (Instrs b) targetTypes of
        Ok True \<Rightarrow> Ok True
      | Ok False \<Rightarrow> anyBlockClosed n P isTargetType blocks targetTypes
      | Panic \<Rightarrow> Panic
      | OutOfFuel \<Rightarrow> OutOfFuel)"
| "storeClosures n P isTargetType [] targetTypes = Ok False"
| "storeClosures n P isTargetType (aRef # addrRefs) targetTypes =
     (case instrAt P aRef of
        MakeClosure fn \<Rightarrow>
          (case kind fn of
             IsFunction f \<Rightarrow>
               (case anyBlockClosed n P isTargetType (Blocks f) targetTypes of
                  Ok True \<Rightarrow> Ok True
                | Ok False \<Rightarrow> storeClosures n P isTargetType addrRefs targetTypes
                | Panic \<Rightarrow> Panic
                | OutOfFuel \<Rightarrow> OutOfFuel)
           | _ \<Rightarrow> storeClosures n P isTargetType addrRefs targetTypes)
      | _ \<Rightarrow> storeClosures n P isTargetType addrRefs targetTypes)"
| "unOpTargets n P isTargetType instrType refs [] targetTypes = Ok False"
| "unOpTargets n P isTargetType instrType refs (tt # rest) targetTypes =
     (if comparable tt \<and> instrType = tt then
        (case isClosed n P isTargetType refs targetTypes of
           Ok True \<Rightarrow> Ok True
         | Ok False \<Rightarrow> unOpTargets n P isTargetType instrType refs rest targetTypes
         | Panic \<Rightarrow> Panic
         | OutOfFuel \<Rightarrow> OutOfFuel)
      else unOpTargets n P isTargetType instrType refs rest targetTypes)"
  by pat_completeness auto
termination
  by (relation "measures
       [case_sum (case_sum (\<lambda>(n, _). n) (\<lambda>(n, _). n))
          (case_sum (\<lambda>(n, _). n) (case_sum (\<lambda>(n, _). n) (\<lambda>(n, _). n))),
        case_sum (case_sum (\<lambda>_. 1) (\<lambda>_. 5))
          (case_sum (\<lambda>_. 2) (case_sum (\<lambda>_. 3) (\<lambda>_. 2))),
        case_sum (case_sum (\<lambda>(n, P, i, refs, t). length refs) (\<lambda>_. 0))
          (case_sum (\<lambda>(n, P, i, bs, t). length bs)
             (case_sum (\<lambda>(n, P, i, rs, t). length rs)
                (\<lambda>(n, P, i, ty, refs, rest, t). length rest)))]")
     auto

section \<open>checkDeferred\<close>

text \<open>
  \<^verbatim>\<open>analysis.Pass\<close>: the SSA result of the \<^verbatim>\<open>buildssa\<close> pass (absent when the type
  assertion on \<^verbatim>\<open>pass.ResultOf[buildssa.Analyzer]\<close> fails) and the diagnostics reported
  so far, oldest first.
\<close>

type_synonym diagnostic = "pos \<times> string"

record pass =
  ResultOf :: "ssa option"
  diagnostics :: "diagnostic list"

definition Reportf :: "pass \<Rightarrow> pos \<Rightarrow> string \<Rightarrow> pass" where
  "Reportf p at msg = p\<lparr>diagnostics := diagnostics p @ [(at, msg)]\<rparr>"

definition isCloseValue :: "callCommon \<Rightarrow> bool" where
  "isCloseValue c = (case Value c of None \<Rightarrow> False | Some v \<Rightarrow> Name v = closeMethod)"

definition isCloseMethod :: "callCommon \<Rightarrow> bool" where
  "isCloseMethod c = (case Method c of None \<Rightarrow> False | Some m \<Rightarrow> m = closeMethod)"

text \<open>
  \<open>checkDeferred\<close> of the source; the pass is threaded through. A \<^verbatim>\<open>return\<close> of the
  source ends the whole call with the pass as it is. The three inner loops are
  \<open>deferredBlocks\<close> (\<^verbatim>\<open>for _, b := range f.Blocks\<close>, with \<^verbatim>\<open>inDefer = true\<close>),
  \<open>deferredClosures\<close> (the referrers of a store's address) and \<open>deferredTargets\<close> (the
  target types in the \<^verbatim>\<open>UnOp\<close> case). The fuel is the nesting depth of \<open>checkDeferred\<close>
  that is left.
\<close>

function
  checkDeferred :: "nat \<Rightarrow> ssa \<Rightarrow> pass \<Rightarrow> iref list \<Rightarrow> gotype list \<Rightarrow> bool \<Rightarrow> pass result"
and
  deferredBlocks :: "nat \<Rightarrow> ssa \<Rightarrow> pass \<Rightarrow> basicBlock list \<Rightarrow> gotype list \<Rightarrow> pass result"
and
  deferredClosures :: "nat \<Rightarrow> ssa \<Rightarrow> pass \<Rightarrow> iref list \<Rightarrow> gotype list \<Rightarrow> pass result"
and
  deferredTargets :: "nat \<Rightarrow> ssa \<Rightarrow> pass \<Rightarrow> gotype \<Rightarrow> iref list \<Rightarrow> gotype list \<Rightarrow> gotype list \<Rightarrow> bool \<Rightarrow> pass result"
where
  "checkDeferred 0 P p instrs targetTypes inDefer = OutOfFuel"
| "checkDeferred (Suc n) P p [] targetTypes inDefer = Ok p"
| "checkDeferred (Suc n) P p (i # instrs) targetTypes inDefer =
     (case instrAt P i of
        Defer c \<Rightarrow>
          if isCloseValue c then Ok p
          else if isCloseMethod c then Ok p
          else checkDeferred (Suc n) P p instrs targetTypes inDefer
      | Call c \<Rightarrow>
          if isCloseValue c then
            (if \<not> inDefer then Ok (Reportf p (Pos P i) ''Close should use defer'') else Ok p)
          else checkDeferred (Suc n) P p instrs targetTypes inDefer
      | Store addr \<Rightarrow>
          (case Referrers addr of
             None \<Rightarrow> Panic
           | Some addrRefs \<Rightarrow>
               if length addrRefs = 0 then Ok p
               else
                 (case deferredClosures n P p addrRefs targetTypes of
                    Ok p' \<Rightarrow> checkDeferred (Suc n) P p' instrs targetTypes inDefer
                  | Panic \<Rightarrow> Panic
                  | OutOfFuel \<Rightarrow> OutOfFuel))
      | UnOp instrType refs \<Rightarrow>
          (case deferredTargets n P p instrType refs targetTypes targetTypes inDefer of
             Ok p' \<Rightarrow> checkDeferred (Suc n) P p' instrs targetTypes inDefer
           | Panic \<Rightarrow> Panic
           | OutOfFuel \<Rightarrow> OutOfFuel)
      | FieldAddr refs \<Rightarrow>
          (case checkDeferred n P p refs targetTypes inDefer of
             Ok p' \<Rightarrow> checkDeferred (Suc n) P p' instrs targetTypes inDefer
           | Panic \<Rightarrow> Panic
           | OutOfFuel \<Rightarrow> OutOfFuel)
      | _ \<Rightarrow> checkDeferred (Suc n) P p instrs targetTypes inDefer)"
| "deferredBlocks n P p [] targetTypes = Ok p"
| "deferredBlocks n P p (b # blocks) targetTypes =
     (case checkDeferred n P p (Instrs b) targetTypes True of
        Ok p' \<Rightarrow> deferredBlocks n P p' blocks targetTypes
      | Panic \<Rightarrow> Panic
      | OutOfFuel \<Rightarrow> OutOfFuel)"
| "deferredClosures n P p [] targetTypes = Ok p"
| "deferredClosures n P p (aRef # addrRefs) targetTypes =
     (case instrAt P aRef of
        MakeClosure fn \<Rightarrow>
          (case kind fn of
             IsFunction f \<Rightarrow>
               (case deferredBlocks n P p (Blocks f) targetTypes of
                  Ok p' \<Rightarrow> deferredClosures n P p' addrRefs targetTypes
                | Panic \<Rightarrow> Panic
                | OutOfFuel \<Rightarrow> OutOfFuel)
           | _ \<Rightarrow> deferredClosures n P p addrRefs targetTypes)
      | _ \<Rightarrow> deferredClosures n P p addrRefs targetTypes)"
| "deferredTargets n P p instrType refs [] targetTypes inDefer = Ok p"
| "deferredTargets n P p instrType refs (tt # rest) targetTypes inDefer =
     (if comparable tt \<and> instrType = tt then
        (case checkDeferred n P p refs targetTypes inDefer of
           Ok p' \<Rightarrow> deferredTargets n P p' instrType refs rest targetTypes inDefer
         | Panic \<Rightarrow> Panic
         | OutOfFuel \<Rightarrow> OutOfFuel)
      else deferredTargets n P p instrType refs rest targetTypes inDefer)"
  by pat_completeness auto
termination
  by (relation "measures
       [case_sum (case_sum (\<lambda>(n, _). n) (\<lambda>(n, _). n))
          (case_sum (\<lambda>(n, _). n) (\<lambda>(n, _). n)),
        case_sum (case_sum (\<lambda>_. 1) (\<lambda>_. 2)) (case_sum (\<lambda>_. 3) (\<lambda>_. 2)),
        case_sum
          (case_sum (\<lambda>(n, P, p, instrs, t). length instrs) (\<lambda>(n, P, p, bs, t). length bs))
          (case_sum (\<lambda>(n, P, p, rs, t). length rs)
             (\<lambda>(n, P, p, ty, refs, rest, t). length rest))]")
     auto

section \<open>Run\<close>

text \<open>
  \<^verbatim>\<open>targetValue\<close>: a closable value and the instruction that produced it. The type and
  the helpers \<^verbatim>\<open>getTargetTypes\<close>, \<^verbatim>\<open>getClosableValues\<close> and \<^verbatim>\<open>isTargetType\<close> are
  declared in another file of the package; the three helpers are parameters of \<open>Run\<close>.
\<close>

record targetValue =
  tvValue :: val
  tvInstr :: iref

text \<open>The body of \<^verbatim>\<open>for _, targetValue := range targetValues\<close>.\<close>

fun runTargetValues ::
  "(gotype \<Rightarrow> gotype list \<Rightarrow> bool) \<Rightarrow> nat \<Rightarrow> ssa \<Rightarrow> pass \<Rightarrow> targetValue list \<Rightarrow> gotype list
     \<Rightarrow> pass result" where
  "runTargetValues isTargetType fuel P p [] targetTypes = Ok p"
| "runTargetValues isTargetType fuel P p (tv # targetValues) targetTypes =
     (case Referrers (tvValue tv) of
        None \<Rightarrow> Panic
      | Some refs \<Rightarrow>
          (case isClosed fuel P isTargetType refs targetTypes of
             Ok closed \<Rightarrow>
               (case checkDeferred fuel P
                       (if \<not> closed
                        then Reportf p (Pos P (tvInstr tv)) ''Rows/Stmt/NamedStmt was not closed''
                        else p)
                       refs targetTypes False of
                  Ok p' \<Rightarrow> runTargetValues isTargetType fuel P p' targetValues targetTypes
                | Panic \<Rightarrow> Panic
                | OutOfFuel \<Rightarrow> OutOfFuel)
           | Panic \<Rightarrow> Panic
           | OutOfFuel \<Rightarrow> OutOfFuel))"

text \<open>\<^verbatim>\<open>for i := range b.Instrs\<close>, over the indices that are left.\<close>

fun runInstrs ::
  "(ssa \<Rightarrow> basicBlock \<Rightarrow> nat \<Rightarrow> gotype list \<Rightarrow> targetValue list) \<Rightarrow> (gotype \<Rightarrow> gotype list \<Rightarrow> bool)
     \<Rightarrow> nat \<Rightarrow> ssa \<Rightarrow> pass \<Rightarrow> basicBlock \<Rightarrow> nat list \<Rightarrow> gotype list \<Rightarrow> pass result" where
  "runInstrs getClosableValues isTargetType fuel P p b [] targetTypes = Ok p"
| "runInstrs getClosableValues isTargetType fuel P p b (i # is) targetTypes =
     (case runTargetValues isTargetType fuel P p (getClosableValues P b i targetTypes)
             targetTypes of
        Ok p' \<Rightarrow> runInstrs getClosableValues isTargetType fuel P p' b is targetTypes
      | Panic \<Rightarrow> Panic
      | OutOfFuel \<Rightarrow> OutOfFuel)"

text \<open>\<^verbatim>\<open>for _, b := range f.Blocks\<close>.\<close>

fun runBlocks ::
  "(ssa \<Rightarrow> basicBlock \<Rightarrow> nat \<Rightarrow> gotype list \<Rightarrow> targetValue list) \<Rightarrow> (gotype \<Rightarrow> gotype list \<Rightarrow> bool)
     \<Rightarrow> nat \<Rightarrow> ssa \<Rightarrow> pass \<Rightarrow> basicBlock list \<Rightarrow> gotype list \<Rightarrow> pass result" where
  "runBlocks getClosableValues isTargetType fuel P p [] targetTypes = Ok p"
| "runBlocks getClosableValues isTargetType fuel P p (b # blocks) targetTypes =
     (case runInstrs getClosableValues isTargetType fuel P p b [0..<length (Instrs b)]
             targetTypes of
        Ok p' \<Rightarrow> runBlocks getClosableValues isTargetType fuel P p' blocks targetTypes
      | Panic \<Rightarrow> Panic
      | OutOfFuel \<Rightarrow> OutOfFuel)"

text \<open>\<^verbatim>\<open>for _, f := range funcs\<close>.\<close>

fun runFuncs ::
  "(ssa \<Rightarrow> basicBlock \<Rightarrow> nat \<Rightarrow> gotype list \<Rightarrow> targetValue list) \<Rightarrow> (gotype \<Rightarrow> gotype list \<Rightarrow> bool)
     \<Rightarrow> nat \<Rightarrow> ssa \<Rightarrow> pass \<Rightarrow> func list \<Rightarrow> gotype list \<Rightarrow> pass result" where
  "runFuncs getClosableValues isTargetType fuel P p [] targetTypes = Ok p"
| "runFuncs getClosableValues isTargetType fuel P p (f # funcs) targetTypes =
     (case runBlocks getClosableValues isTargetType fuel P p (Blocks f) targetTypes of
        Ok p' \<Rightarrow> runFuncs getClosableValues isTargetType fuel P p' funcs targetTypes
      | Panic \<Rightarrow> Panic
      | OutOfFuel \<Rightarrow> OutOfFuel)"

text \<open>
  \<open>Run\<close> of the source. Its Go results are always \<^verbatim>\<open>(nil, nil)\<close>; what it produces is
  the diagnostics reported to the pass, so the model returns the pass.
\<close>

definition Run ::
  "(ssa \<Rightarrow> string list \<Rightarrow> gotype list)
     \<Rightarrow> (ssa \<Rightarrow> basicBlock \<Rightarrow> nat \<Rightarrow> gotype list \<Rightarrow> targetValue list)
     \<Rightarrow> (gotype \<Rightarrow> gotype list \<Rightarrow> bool) \<Rightarrow> nat \<Rightarrow> pass \<Rightarrow> pass result" where
  "Run getTargetTypes getClosableValues isTargetType fuel p =
     (case ResultOf p of
        None \<Rightarrow> Ok p
      | Some pssa \<Rightarrow>
          (let targetTypes = getTargetTypes pssa sqlPackages in
           if length targetTypes = 0 then Ok p
           else runFuncs getClosableValues isTargetType fuel pssa p (SrcFuncs pssa) targetTypes))"

section \<open>Auxiliary notions for the statements\<close>

text \<open>
  An instruction at which \<open>checkDeferred\<close> does nothing and goes on to the next one: it is
  not what \<open>checkDeferred\<close> takes for a cleanup call (a deferred call whose value or method
  is named Close, a call whose value is named Close), and it is none of the kinds that
  \<open>checkDeferred\<close> walks into.
\<close>

fun passedOver :: "instruction \<Rightarrow> bool" where
  "passedOver (Defer c) = (\<not> isCloseValue c \<and> \<not> isCloseMethod c)"
| "passedOver (Call c) = (\<not> isCloseValue c)"
| "passedOver (Store addr) = False"
| "passedOver (UnOp t refs) = False"
| "passedOver (FieldAddr refs) = False"
| "passedOver i = True"

text \<open>The outcome of a walk with a function applied to the value it returns, if any.\<close>

definition mapResult :: "('a \<Rightarrow> 'b) \<Rightarrow> 'a result \<Rightarrow> 'b result" where
  "mapResult g r = (case r of Ok x \<Rightarrow> Ok (g x) | Panic \<Rightarrow> Panic | OutOfFuel \<Rightarrow> OutOfFuel)"

text \<open>
  The instructions that one call of \<open>getAction\<close> hands to \<open>isClosed\<close>: the body of the
  function of a deferred or ordinary call that is followed, the bodies of the closures made
  over the address of a store, and the referrers of a dereference or field address.
  \<open>closureBodies\<close> collects the bodies over the referrers of the address.
\<close>

fun closureBodies :: "ssa \<Rightarrow> iref list \<Rightarrow> iref list" where
  "closureBodies P [] = []"
| "closureBodies P (aRef # addrRefs) =
     (case instrAt P aRef of
        MakeClosure fn \<Rightarrow>
          (case kind fn of
             IsFunction f \<Rightarrow> concat (map Instrs (Blocks f))
           | _ \<Rightarrow> [])
      | _ \<Rightarrow> [])
     @ closureBodies P addrRefs"

fun walked :: "ssa \<Rightarrow> (gotype \<Rightarrow> gotype list \<Rightarrow> bool) \<Rightarrow> gotype list \<Rightarrow> instruction \<Rightarrow> iref list" where
  "walked P itt tts (Defer c) =
     (case Value c of
        None \<Rightarrow> []
      | Some v \<Rightarrow>
          if Name v = closeMethod \<or> Method c \<noteq> None then []
          else (case kind v of IsFunction f \<Rightarrow> concat (map Instrs (Blocks f)) | _ \<Rightarrow> []))"
| "walked P itt tts (Call c) =
     (case Value c of
        None \<Rightarrow> []
      | Some v \<Rightarrow>
          if isTargetCall itt c v tts then []
          else (case StaticCallee c of Some f \<Rightarrow> concat (map Instrs (Blocks f)) | None \<Rightarrow> []))"
| "walked P itt tts (Store addr) =
     (if kind addr = IsFieldAddr then []
      else (case Referrers addr of None \<Rightarrow> [] | Some addrRefs \<Rightarrow> closureBodies P addrRefs))"
| "walked P itt tts (UnOp instrType refs) =
     (if list_ex (\<lambda>tt. comparable tt \<and> instrType = tt) tts then refs else [])"
| "walked P itt tts (FieldAddr refs) = refs"
| "walked P itt tts i = []"

section \<open>Concrete programs\<close>

text \<open>
  Instances of the parameters and small SSA graphs, used to run the definitions.
  \<open>exIsTargetType\<close> compares a type with every pointer or named target type.
\<close>

definition sqlRows :: gotype where
  "sqlRows = Pointer (Named ''database/sql'' ''Rows'')"

definition pgxRows :: gotype where
  "pgxRows = Named ''github.com/jackc/pgx/v5'' ''Rows''"

definition exTargetTypes :: "gotype list" where
  "exTargetTypes = [sqlRows, Named ''database/sql'' ''Rows'', Pointer pgxRows, pgxRows]"

definition exIsTargetType :: "gotype \<Rightarrow> gotype list \<Rightarrow> bool" where
  "exIsTargetType t targetTypes = list_ex (\<lambda>tt. comparable tt \<and> t = tt) targetTypes"

text \<open>\<^verbatim>\<open>(*sql.Rows).Close\<close> and \<^verbatim>\<open>(*sql.DB).Query\<close>: functions of an imported package, without a body.\<close>

definition rowsClose :: val where
  "rowsClose =
     \<lparr>Name = ''Close'', Type = OtherType ''func() error'', Referrers = None,
      kind = IsFunction \<lparr>Blocks = [], Recv = Some sqlRows\<rparr>\<rparr>"

definition dbQuery :: val where
  "dbQuery =
     \<lparr>Name = ''Query'', Type = OtherType ''func(string) (*sql.Rows, error)'', Referrers = None,
      kind = IsFunction \<lparr>Blocks = [], Recv = Some (Pointer (Named ''database/sql'' ''DB''))\<rparr>\<rparr>"

text \<open>\<^verbatim>\<open>(*os.File).Close\<close>: a cleanup method of a type that is not tracked.\<close>

definition fileClose :: val where
  "fileClose =
     \<lparr>Name = ''Close'', Type = OtherType ''func() error'', Referrers = None,
      kind = IsFunction \<lparr>Blocks = [], Recv = Some (Pointer (Named ''os'' ''File''))\<rparr>\<rparr>"

text \<open>
  Functions of the analyzed package, with a body. \<^verbatim>\<open>func walk(r *sql.Rows) { walk(r) }\<close>
  calls itself (instruction 8); \<^verbatim>\<open>func closeRows(r *sql.Rows) { defer r.Close() }\<close> and
  the method \<^verbatim>\<open>func (r *sql.Rows) drain() { defer r.Close() }\<close> hold the deferred close
  (instruction 3).
\<close>

definition walkFn :: val where
  "walkFn =
     \<lparr>Name = ''walk'', Type = OtherType ''func(*sql.Rows)'', Referrers = None,
      kind = IsFunction \<lparr>Blocks = [\<lparr>Instrs = [8]\<rparr>], Recv = None\<rparr>\<rparr>"

definition closeRowsFn :: val where
  "closeRowsFn =
     \<lparr>Name = ''closeRows'', Type = OtherType ''func(*sql.Rows)'', Referrers = None,
      kind = IsFunction \<lparr>Blocks = [\<lparr>Instrs = [3]\<rparr>], Recv = None\<rparr>\<rparr>"

definition drainFn :: val where
  "drainFn =
     \<lparr>Name = ''drain'', Type = OtherType ''func()'', Referrers = None,
      kind = IsFunction \<lparr>Blocks = [\<lparr>Instrs = [3]\<rparr>], Recv = Some sqlRows\<rparr>\<rparr>"

text \<open>
  Values that are not functions: the register \<^verbatim>\<open>t0\<close> holding the rows, an
  \<^verbatim>\<open>io.Reader\<close> and a \<^verbatim>\<open>pgx.Rows\<close> (interfaces: a method call on them is in invoke
  mode, where \<^verbatim>\<open>Call.Value\<close> is the receiver, here the registers \<^verbatim>\<open>t1\<close> and
  \<^verbatim>\<open>t2\<close>, and \<^verbatim>\<open>Call.Method\<close> the method), a local variable nobody reads, a
  package-level variable (its referrers are a nil pointer) and the address of a struct
  field.
\<close>

definition rowsValue :: val where
  "rowsValue = \<lparr>Name = ''t0'', Type = sqlRows, Referrers = Some [4], kind = IsOther\<rparr>"

definition readerValue :: val where
  "readerValue =
     \<lparr>Name = ''t1'', Type = Named ''io'' ''Reader'', Referrers = Some [7], kind = IsOther\<rparr>"

definition pgxRowsValue :: val where
  "pgxRowsValue = \<lparr>Name = ''t2'', Type = pgxRows, Referrers = Some [16], kind = IsOther\<rparr>"

definition deadVar :: val where
  "deadVar =
     \<lparr>Name = ''t3'', Type = Pointer sqlRows, Referrers = Some [], kind = IsOther\<rparr>"

definition globalVar :: val where
  "globalVar =
     \<lparr>Name = ''current'', Type = Pointer sqlRows, Referrers = None, kind = IsOther\<rparr>"

definition fieldVar :: val where
  "fieldVar =
     \<lparr>Name = ''t4'', Type = Pointer sqlRows, Referrers = Some [15], kind = IsFieldAddr\<rparr>"

text \<open>The instructions of the examples, by identity.\<close>

definition exInstr :: "iref \<Rightarrow> instruction" where
  "exInstr i =
     (if i = 0 then Call \<lparr>Value = Some dbQuery, Method = None\<rparr>
      else if i = 1 then Call \<lparr>Value = Some rowsClose, Method = None\<rparr>
      else if i = 2 then Phi
      else if i = 3 then Defer \<lparr>Value = Some rowsClose, Method = None\<rparr>
      else if i = 4 then Return [rowsValue]
      else if i = 5 then Store deadVar
      else if i = 6 then Store globalVar
      else if i = 7 then Call \<lparr>Value = Some readerValue, Method = Some ''Read''\<rparr>
      else if i = 8 then Call \<lparr>Value = Some walkFn, Method = None\<rparr>
      else if i = 9 then Call \<lparr>Value = Some closeRowsFn, Method = None\<rparr>
      else if i = 10 then MakeInterface
      else if i = 11 then Defer \<lparr>Value = Some fileClose, Method = None\<rparr>
      else if i = 12 then Call \<lparr>Value = Some drainFn, Method = None\<rparr>
      else if i = 13 then Defer \<lparr>Value = Some pgxRowsValue, Method = Some ''Close''\<rparr>
      else if i = 14 then Defer \<lparr>Value = Some readerValue, Method = Some ''Read''\<rparr>
      else if i = 15 then Store fieldVar
      else if i = 16 then Call \<lparr>Value = Some pgxRowsValue, Method = Some ''Close''\<rparr>
      else OtherInstr)"

definition exProgram :: ssa where
  "exProgram = \<lparr>SrcFuncs = [], instrAt = exInstr, Pos = (\<lambda>i. 100 + i)\<rparr>"

text \<open>A closable value produced by instruction 0, with the given referrers.\<close>

definition rowsWith :: "iref list \<Rightarrow> targetValue" where
  "rowsWith refs =
     \<lparr>tvValue = \<lparr>Name = ''t0'', Type = sqlRows, Referrers = Some refs, kind = IsOther\<rparr>,
      tvInstr = 0\<rparr>"

definition noPass :: pass where
  "noPass = \<lparr>ResultOf = Some exProgram, diagnostics = []\<rparr>"

text \<open>
  A source function with two blocks: \<^verbatim>\<open>rows, _ := db.Query(q); rows.Close()\<close>
  (instructions 0 and 1) and \<^verbatim>\<open>other, _ := db.Query(q)\<close> (instruction 2), whose value
  has no referrer. \<open>smallValues\<close> gives the closable value of each of the two calls.
\<close>

definition smallProgram :: ssa where
  "smallProgram =
     \<lparr>SrcFuncs = [\<lparr>Blocks = [\<lparr>Instrs = [0, 1]\<rparr>, \<lparr>Instrs = [2]\<rparr>], Recv = None\<rparr>],
      instrAt = (\<lambda>i. if i = 0 \<or> i = 2 then Call \<lparr>Value = Some dbQuery, Method = None\<rparr>
                     else if i = 1 then Call \<lparr>Value = Some rowsClose, Method = None\<rparr>
                     else OtherInstr),
      Pos = (\<lambda>i. 100 + i)\<rparr>"

definition smallValues :: "ssa \<Rightarrow> basicBlock \<Rightarrow> nat \<Rightarrow> gotype list \<Rightarrow> targetValue list" where
  "smallValues P b i targetTypes =
     (if Instrs b ! i = 0
      then [\<lparr>tvValue = \<lparr>Name = ''t0'', Type = sqlRows, Referrers = Some [1], kind = IsOther\<rparr>,
             tvInstr = 0\<rparr>]
      else if Instrs b ! i = 2
      then [\<lparr>tvValue = \<lparr>Name = ''t2'', Type = sqlRows, Referrers = Some [], kind = IsOther\<rparr>,
             tvInstr = 2\<rparr>]
      else [])"

definition smallPass :: pass where
  "smallPass = \<lparr>ResultOf = Some smallProgram, diagnostics = []\<rparr>"

text \<open>
  A nesting rank for the call of \<^verbatim>\<open>closeRows\<close> (instruction 9) and the deferred close in
  its body (instruction 3); every other instruction gets the bound.
\<close>

definition exRank :: "iref \<Rightarrow> nat" where
  "exRank i = (if i = 3 then 0 else if i = 9 then 1 else 2)"

section \<open>Unfolding the examples\<close>

lemmas ex_defs =
  pgxRows_def exProgram_def exInstr_def rowsClose_def dbQuery_def fileClose_def walkFn_def closeRowsFn_def
  drainFn_def rowsValue_def readerValue_def pgxRowsValue_def deadVar_def globalVar_def
  fieldVar_def closeMethod_def isCloseValue_def isCloseMethod_def isTargetCall_def
  StaticCallee_def exIsTargetType_def exTargetTypes_def sqlRows_def rowsWith_def noPass_def
  Reportf_def returnsTarget_def

section \<open>The reachability walk\<close>

lemma isClosed_skip:
  assumes "getAction n P itt (instrAt P r) tts = Ok a"
    and "a \<noteq> actionClosed" and "a \<noteq> actionHandled"
  shows "isClosed (Suc n) P itt (r # refs) tts = isClosed (Suc n) P itt refs tts"
  using assms by (cases a) simp_all

lemma isClosed_prefix:
  assumes "\<forall>r \<in> set pre. \<exists>a. getAction n P itt (instrAt P r) tts = Ok a
             \<and> a \<noteq> actionClosed \<and> a \<noteq> actionHandled"
  shows "isClosed (Suc n) P itt (pre @ rest) tts = isClosed (Suc n) P itt rest tts"
  using assms
proof (induction pre)
  case Nil
  then show ?case by simp
next
  case (Cons r pre)
  then obtain a where "getAction n P itt (instrAt P r) tts = Ok a"
    and "a \<noteq> actionClosed" and "a \<noteq> actionHandled"
    by auto
  then have "isClosed (Suc n) P itt (r # (pre @ rest)) tts
               = isClosed (Suc n) P itt (pre @ rest) tts"
    by (rule isClosed_skip)
  with Cons show ?case by simp
qed

lemma isClosed_hit:
  assumes "getAction n P itt (instrAt P r) tts = Ok actionClosed
           \<or> getAction n P itt (instrAt P r) tts = Ok actionHandled"
  shows "isClosed (Suc n) P itt (r # refs) tts = Ok True"
  using assms by auto

text \<open>
  C1: \<open>isClosed\<close> walks the referrers in order. It goes past every referrer that
  classifies as Returned, Unhandled, UnvaluedCall, UnvaluedDefer (and Passed or NoOp),
  returns true at the first one that classifies as Closed or Handled, whatever follows it,
  and returns false when the list is exhausted; with no referrer it returns false.
\<close>

theorem isClosed_first_match:
  assumes "\<forall>r \<in> set pre. \<exists>a. getAction n P itt (instrAt P r) tts = Ok a
             \<and> a \<in> {actionReturned, actionUnhandled, actionUnvaluedCall, actionUnvaluedDefer,
                    actionPassed, actionNoOp}"
  shows "isClosed (Suc n) P itt [] tts = Ok False
         \<and> isClosed (Suc n) P itt pre tts = Ok False
         \<and> (getAction n P itt (instrAt P c) tts = Ok actionClosed
              \<or> getAction n P itt (instrAt P c) tts = Ok actionHandled
            \<longrightarrow> isClosed (Suc n) P itt (pre @ c # post) tts = Ok True)"
proof -
  have pre: "\<forall>r \<in> set pre. \<exists>a. getAction n P itt (instrAt P r) tts = Ok a
               \<and> a \<noteq> actionClosed \<and> a \<noteq> actionHandled"
    using assms by fastforce
  have "isClosed (Suc n) P itt (pre @ []) tts = isClosed (Suc n) P itt [] tts"
    using pre by (rule isClosed_prefix)
  moreover have "isClosed (Suc n) P itt (pre @ c # post) tts
                   = isClosed (Suc n) P itt (c # post) tts"
    using pre by (rule isClosed_prefix)
  ultimately show ?thesis
    by (simp add: isClosed_hit del: isClosed.simps(3))
qed

theorem isClosed_first_match_witness:
  "isClosed (Suc 0) exProgram exIsTargetType [4, 2, 3, 6] exTargetTypes = Ok True
   \<and> isClosed (Suc 0) exProgram exIsTargetType [4, 2] exTargetTypes = Ok False
   \<and> isClosed (Suc 0) exProgram exIsTargetType [] exTargetTypes = Ok False
   \<and> isClosed (Suc 0) exProgram exIsTargetType [6] exTargetTypes = Panic"
  using isClosed_first_match
    [of "[4, 2]" 0 exProgram exIsTargetType exTargetTypes 3 "[6]"]
  by (simp add: exProgram_def exInstr_def rowsClose_def closeMethod_def globalVar_def
      returnsTarget_def rowsValue_def exTargetTypes_def sqlRows_def)

section \<open>The deferred-usage walk\<close>

lemma checkDeferred_skip:
  assumes "passedOver (instrAt P r)"
  shows "checkDeferred (Suc n) P p (r # rest) tts d = checkDeferred (Suc n) P p rest tts d"
  using assms by (cases "instrAt P r") simp_all

lemma checkDeferred_prefix:
  assumes "\<forall>r \<in> set pre. passedOver (instrAt P r)"
  shows "checkDeferred (Suc n) P p (pre @ rest) tts d = checkDeferred (Suc n) P p rest tts d"
  using assms by (induction pre) (simp_all add: checkDeferred_skip del: checkDeferred.simps)

lemma checkDeferred_all_passedOver:
  assumes "\<forall>r \<in> set refs. passedOver (instrAt P r)"
  shows "checkDeferred (Suc n) P p refs tts d = Ok p"
  using checkDeferred_prefix[OF assms, of n p "[]" tts d] by simp

text \<open>
  \<open>checkDeferred\<close> stops at the first deferred call whose value or method is named Close,
  and at the first call whose value is named Close. After referrers that it passes over,
  such a deferred call ends the walk with no diagnostic; such a call ends it with exactly
  one diagnostic, at that call, when the walk is not inside a deferred closure (\<open>inDefer\<close>
  false), and with none inside one. The referrers after it are not looked at: the result
  is the same for every \<open>post\<close>. A closable value whose first closing referrer is such a
  call, on a target-typed callee, gets that one diagnostic from \<open>Run\<close>'s loop body and no
  "was not closed" diagnostic.
\<close>

theorem checkDeferred_first_cleanup:
  assumes "\<forall>r \<in> set pre. passedOver (instrAt P r)"
  shows "(instrAt P c = Defer cc \<and> (isCloseValue cc \<or> isCloseMethod cc)
            \<longrightarrow> checkDeferred (Suc n) P p (pre @ c # post) tts inDefer = Ok p)
         \<and> (instrAt P c = Call cc \<and> isCloseValue cc
            \<longrightarrow> checkDeferred (Suc n) P p (pre @ c # post) tts False
                  = Ok (Reportf p (Pos P c) ''Close should use defer'')
                \<and> checkDeferred (Suc n) P p (pre @ c # post) tts True = Ok p)
         \<and> (instrAt P c = Call cc \<and> Value cc = Some v \<and> Name v = closeMethod
              \<and> isTargetCall itt cc v tts \<and> Referrers (tvValue tv) = Some (pre @ c # post)
              \<and> (\<forall>r \<in> set pre. \<exists>a. getAction n P itt (instrAt P r) tts = Ok a
                     \<and> a \<noteq> actionClosed \<and> a \<noteq> actionHandled)
            \<longrightarrow> runTargetValues itt (Suc n) P p [tv] tts
                  = Ok (Reportf p (Pos P c) ''Close should use defer''))"
proof -
  have cd: "checkDeferred (Suc n) P q (pre @ c # post) tts d
              = checkDeferred (Suc n) P q (c # post) tts d" for q d
    using assms by (rule checkDeferred_prefix)
  have one: "instrAt P c = Defer cc \<and> (isCloseValue cc \<or> isCloseMethod cc)
            \<longrightarrow> checkDeferred (Suc n) P p (pre @ c # post) tts inDefer = Ok p"
    unfolding cd by auto
  have two: "instrAt P c = Call cc \<and> isCloseValue cc
            \<longrightarrow> checkDeferred (Suc n) P q (pre @ c # post) tts False
                  = Ok (Reportf q (Pos P c) ''Close should use defer'')
                \<and> checkDeferred (Suc n) P q (pre @ c # post) tts True = Ok q" for q
    unfolding cd by auto
  have three: "runTargetValues itt (Suc n) P p [tv] tts
                  = Ok (Reportf p (Pos P c) ''Close should use defer'')"
    if c: "instrAt P c = Call cc" and v: "Value cc = Some v" "Name v = closeMethod"
      and t: "isTargetCall itt cc v tts" and refs: "Referrers (tvValue tv) = Some (pre @ c # post)"
      and pre: "\<forall>r \<in> set pre. \<exists>a. getAction n P itt (instrAt P r) tts = Ok a
                     \<and> a \<noteq> actionClosed \<and> a \<noteq> actionHandled"
  proof -
    have "getAction n P itt (instrAt P c) tts = Ok actionClosed"
      using c v t by simp
    then have "isClosed (Suc n) P itt (c # post) tts = Ok True"
      by (simp add: isClosed_hit del: isClosed.simps(3))
    moreover have "isClosed (Suc n) P itt (pre @ c # post) tts
                     = isClosed (Suc n) P itt (c # post) tts"
      using pre by (rule isClosed_prefix)
    ultimately have "isClosed (Suc n) P itt (pre @ c # post) tts = Ok True"
      by simp
    moreover have "isCloseValue cc"
      using v by (simp add: isCloseValue_def)
    ultimately show ?thesis
      using two[of p] c refs by simp
  qed
  from one two[of p] three show ?thesis
    by blast
qed

theorem checkDeferred_first_cleanup_witness:
  "checkDeferred (Suc 0) exProgram noPass [7, 3, 1] exTargetTypes False = Ok noPass
   \<and> checkDeferred (Suc 0) exProgram noPass [7, 1, 1, 3] exTargetTypes False
       = Ok \<lparr>ResultOf = Some exProgram, diagnostics = [(101, ''Close should use defer'')]\<rparr>
   \<and> checkDeferred (Suc 0) exProgram noPass [7, 1, 1, 3] exTargetTypes True = Ok noPass
   \<and> runTargetValues exIsTargetType (Suc 0) exProgram noPass [rowsWith [7, 1, 1, 3]] exTargetTypes
       = Ok \<lparr>ResultOf = Some exProgram, diagnostics = [(101, ''Close should use defer'')]\<rparr>"
  using checkDeferred_first_cleanup
    [of "[7]" exProgram 3 "\<lparr>Value = Some rowsClose, Method = None\<rparr>" 0 noPass "[1]"
        exTargetTypes False]
    checkDeferred_first_cleanup
    [of "[7]" exProgram 1 "\<lparr>Value = Some rowsClose, Method = None\<rparr>" 0 noPass "[1, 3]"
        exTargetTypes False rowsClose exIsTargetType "rowsWith [7, 1, 1, 3]"]
  by (simp add: ex_defs)

text \<open>
  C4 fails for a bare cleanup call that is dispatched through an interface. A
  \<^verbatim>\<open>pgx.Rows\<close> is an interface of an allow-listed package, so \<^verbatim>\<open>rows.Close()\<close> on it is
  a call in invoke mode (instruction 16): its value is the receiver register and its method
  is \<^verbatim>\<open>Close\<close>. The \<^verbatim>\<open>Call\<close> case of \<open>checkDeferred\<close> compares the name of the value
  only, where the \<^verbatim>\<open>Defer\<close> case compares the name of the method too. The bare cleanup
  call is passed over with no diagnostic and the walk goes on to the referrer after it;
  \<open>getAction\<close> classifies it as Unhandled for the same reason, so \<open>Run\<close>'s loop body reports
  the value as not closed. The same call deferred (instruction 13) ends the walk and is
  Closed.
\<close>

theorem bare_interface_close_passed_over:
  "instrAt exProgram 16 = Call \<lparr>Value = Some pgxRowsValue, Method = Some closeMethod\<rparr>
   \<and> exIsTargetType (Type pgxRowsValue) exTargetTypes
   \<and> checkDeferred (Suc 0) exProgram noPass [16] exTargetTypes False = Ok noPass
   \<and> checkDeferred (Suc 0) exProgram noPass [16, 1] exTargetTypes False
       = Ok \<lparr>ResultOf = Some exProgram, diagnostics = [(101, ''Close should use defer'')]\<rparr>
   \<and> getAction 0 exProgram exIsTargetType (instrAt exProgram 16) exTargetTypes
       = Ok actionUnhandled
   \<and> runTargetValues exIsTargetType (Suc 0) exProgram noPass
         [\<lparr>tvValue = pgxRowsValue, tvInstr = 0\<rparr>] exTargetTypes
       = Ok \<lparr>ResultOf = Some exProgram,
              diagnostics = [(100, ''Rows/Stmt/NamedStmt was not closed'')]\<rparr>
   \<and> instrAt exProgram 13 = Defer \<lparr>Value = Some pgxRowsValue, Method = Some closeMethod\<rparr>
   \<and> checkDeferred (Suc 0) exProgram noPass [13, 1] exTargetTypes False = Ok noPass
   \<and> getAction 0 exProgram exIsTargetType (instrAt exProgram 13) exTargetTypes = Ok actionClosed"
  by (simp add: ex_defs)



section \<open>Passed and Returned\<close>

lemma getAction_returned:
  assumes "(\<exists>results. ins = Return results
              \<and> (\<exists>res \<in> set results. \<exists>tt \<in> set tts. comparable tt \<and> Type res = tt))
           \<or> (\<exists>addr. ins = Store addr \<and> kind addr = IsFieldAddr)"
  shows "getAction n P itt ins tts = Ok actionReturned"
  using assms by (auto simp: returnsTarget_def list_ex_iff)

text \<open>
  C2: \<open>getAction\<close> classifies a Phi and a MakeInterface as Passed, at any fuel and
  without reading anything else of the graph (the consumers of the merged or boxed value
  are not part of what it reads). A closable value whose referrers are Phi or
  MakeInterface instructions, or instructions that are no cleanup call and do not classify
  as Closed or Handled, is not closed for \<open>isClosed\<close>, and \<open>Run\<close>'s loop body reports it
  as not closed, whatever consumes the merged value afterwards.
\<close>

theorem passed_is_inert:
  assumes "\<forall>r \<in> set refs. instrAt P r = Phi \<or> instrAt P r = MakeInterface
             \<or> (passedOver (instrAt P r)
                 \<and> (\<exists>a. getAction n P itt (instrAt P r) tts = Ok a
                       \<and> a \<noteq> actionClosed \<and> a \<noteq> actionHandled))"
    and "Referrers (tvValue tv) = Some refs"
  shows "(\<forall>r \<in> set refs. instrAt P r = Phi \<or> instrAt P r = MakeInterface
            \<longrightarrow> getAction n P itt (instrAt P r) tts = Ok actionPassed)
         \<and> isClosed (Suc n) P itt refs tts = Ok False
         \<and> runTargetValues itt (Suc n) P p [tv] tts
             = Ok (Reportf p (Pos P (tvInstr tv)) ''Rows/Stmt/NamedStmt was not closed'')"
proof -
  have a: "\<forall>r \<in> set refs. \<exists>a. getAction n P itt (instrAt P r) tts = Ok a
             \<and> a \<noteq> actionClosed \<and> a \<noteq> actionHandled"
    using assms(1) by fastforce
  have "isClosed (Suc n) P itt (refs @ []) tts = isClosed (Suc n) P itt [] tts"
    using a by (rule isClosed_prefix)
  then have closed: "isClosed (Suc n) P itt refs tts = Ok False"
    by simp
  have "\<forall>r \<in> set refs. passedOver (instrAt P r)"
    using assms(1) by fastforce
  then have "checkDeferred (Suc n) P q refs tts False = Ok q" for q
    by (rule checkDeferred_all_passedOver)
  with closed assms(2) show ?thesis
    by auto
qed

theorem passed_is_inert_witness:
  "getAction 0 exProgram exIsTargetType (instrAt exProgram 2) exTargetTypes = Ok actionPassed
   \<and> getAction 0 exProgram exIsTargetType (instrAt exProgram 10) exTargetTypes = Ok actionPassed
   \<and> isClosed (Suc 0) exProgram exIsTargetType [2, 10, 7] exTargetTypes = Ok False
   \<and> runTargetValues exIsTargetType (Suc 0) exProgram noPass [rowsWith [2, 10, 7]] exTargetTypes
       = Ok \<lparr>ResultOf = Some exProgram,
              diagnostics = [(100, ''Rows/Stmt/NamedStmt was not closed'')]\<rparr>"
  using passed_is_inert
    [of "[2, 10, 7]" exProgram 0 exIsTargetType exTargetTypes "rowsWith [2, 10, 7]" noPass]
  by (simp add: ex_defs)

text \<open>
  C7: a return with a result whose type is identical to a pointer or named target type,
  and a store to a field address, classify as Returned; \<open>isClosed\<close> goes on to the next
  referrer and follows neither. A closable value whose referrers are such returns is
  reported as not closed by \<open>Run\<close>'s loop body.
\<close>

theorem returned_not_followed:
  assumes "\<forall>r \<in> set refs.
             (\<exists>results. instrAt P r = Return results
                \<and> (\<exists>res \<in> set results. \<exists>tt \<in> set tts. comparable tt \<and> Type res = tt))
             \<or> (\<exists>addr. instrAt P r = Store addr \<and> kind addr = IsFieldAddr)"
  shows "(\<forall>r \<in> set refs. getAction n P itt (instrAt P r) tts = Ok actionReturned)
         \<and> isClosed (Suc n) P itt refs tts = Ok False
         \<and> ((\<forall>r \<in> set refs. \<exists>results. instrAt P r = Return results)
              \<and> Referrers (tvValue tv) = Some refs
            \<longrightarrow> runTargetValues itt (Suc n) P p [tv] tts
                  = Ok (Reportf p (Pos P (tvInstr tv)) ''Rows/Stmt/NamedStmt was not closed''))"
proof -
  have ret: "\<forall>r \<in> set refs. getAction n P itt (instrAt P r) tts = Ok actionReturned"
  proof
    fix r
    assume "r \<in> set refs"
    with assms have "(\<exists>results. instrAt P r = Return results
                \<and> (\<exists>res \<in> set results. \<exists>tt \<in> set tts. comparable tt \<and> Type res = tt))
             \<or> (\<exists>addr. instrAt P r = Store addr \<and> kind addr = IsFieldAddr)"
      by blast
    then show "getAction n P itt (instrAt P r) tts = Ok actionReturned"
      by (rule getAction_returned)
  qed
  then have "\<forall>r \<in> set refs. \<exists>a. getAction n P itt (instrAt P r) tts = Ok a
             \<and> a \<noteq> actionClosed \<and> a \<noteq> actionHandled"
    by simp
  then have "isClosed (Suc n) P itt (refs @ []) tts = isClosed (Suc n) P itt [] tts"
    by (rule isClosed_prefix)
  then have closed: "isClosed (Suc n) P itt refs tts = Ok False"
    by simp
  have "checkDeferred (Suc n) P q refs tts False = Ok q"
    if "\<forall>r \<in> set refs. \<exists>results. instrAt P r = Return results" for q
  proof (rule checkDeferred_all_passedOver)
    show "\<forall>r \<in> set refs. passedOver (instrAt P r)"
      using that by fastforce
  qed
  with ret closed show ?thesis
    by auto
qed

theorem returned_not_followed_witness:
  "getAction 0 exProgram exIsTargetType (instrAt exProgram 4) exTargetTypes = Ok actionReturned
   \<and> getAction 0 exProgram exIsTargetType (instrAt exProgram 15) exTargetTypes = Ok actionReturned
   \<and> isClosed (Suc 0) exProgram exIsTargetType [4, 15] exTargetTypes = Ok False
   \<and> runTargetValues exIsTargetType (Suc 0) exProgram noPass [rowsWith [4]] exTargetTypes
       = Ok \<lparr>ResultOf = Some exProgram,
              diagnostics = [(100, ''Rows/Stmt/NamedStmt was not closed'')]\<rparr>"
  using returned_not_followed
    [of "[4]" exProgram exTargetTypes 0 exIsTargetType "rowsWith [4]" noPass]
    returned_not_followed
    [of "[4, 15]" exProgram exTargetTypes 0 exIsTargetType "rowsWith [4]" noPass]
  by (simp add: ex_defs)

section \<open>Calls and deferred calls\<close>

text \<open>
  The loop over the blocks of a function finds a closing block exactly when some block is
  closed for \<open>isClosed\<close> and every block before it is not.
\<close>

lemma anyBlockClosed_iff:
  "anyBlockClosed n P itt blocks tts = Ok True
     \<longleftrightarrow> (\<exists>pre b post. blocks = pre @ b # post
            \<and> (\<forall>b' \<in> set pre. isClosed n P itt (Instrs b') tts = Ok False)
            \<and> isClosed n P itt (Instrs b) tts = Ok True)"
proof (induction blocks)
  case Nil
  then show ?case by simp
next
  case (Cons a blocks)
  show ?case
  proof (cases "isClosed n P itt (Instrs a) tts")
    case (Ok closed)
    show ?thesis
    proof (cases closed)
      case True
      with Ok have "anyBlockClosed n P itt (a # blocks) tts = Ok True"
        by simp
      moreover have "a # blocks = [] @ a # blocks
            \<and> (\<forall>b' \<in> set []. isClosed n P itt (Instrs b') tts = Ok False)
            \<and> isClosed n P itt (Instrs a) tts = Ok True"
        using Ok True by simp
      ultimately show ?thesis by blast
    next
      case False
      with Ok have step: "anyBlockClosed n P itt (a # blocks) tts = anyBlockClosed n P itt blocks tts"
        by simp
      have "(\<exists>pre b post. a # blocks = pre @ b # post
            \<and> (\<forall>b' \<in> set pre. isClosed n P itt (Instrs b') tts = Ok False)
            \<and> isClosed n P itt (Instrs b) tts = Ok True)
          \<longleftrightarrow> (\<exists>pre b post. blocks = pre @ b # post
            \<and> (\<forall>b' \<in> set pre. isClosed n P itt (Instrs b') tts = Ok False)
            \<and> isClosed n P itt (Instrs b) tts = Ok True)" (is "?L \<longleftrightarrow> ?R")
      proof
        assume ?L
        then obtain pre b post where d: "a # blocks = pre @ b # post"
          and p: "\<forall>b' \<in> set pre. isClosed n P itt (Instrs b') tts = Ok False"
          and c: "isClosed n P itt (Instrs b) tts = Ok True"
          by blast
        from c Ok False have "pre \<noteq> []"
          using d by (cases pre) auto
        then obtain pre' where "pre = a # pre'"
          using d by (cases pre) auto
        with d p c show ?R by auto
      next
        assume ?R
        then obtain pre b post where d: "blocks = pre @ b # post"
          and p: "\<forall>b' \<in> set pre. isClosed n P itt (Instrs b') tts = Ok False"
          and c: "isClosed n P itt (Instrs b) tts = Ok True"
          by blast
        have "a # blocks = (a # pre) @ b # post"
          using d by simp
        moreover have "\<forall>b' \<in> set (a # pre). isClosed n P itt (Instrs b') tts = Ok False"
          using p Ok False by simp
        ultimately show ?L using c by blast
      qed
      with step Cons show ?thesis by simp
    qed
  next
    case Panic
    then have "anyBlockClosed n P itt (a # blocks) tts = Panic" by simp
    moreover have "\<not> (\<exists>pre b post. a # blocks = pre @ b # post
            \<and> (\<forall>b' \<in> set pre. isClosed n P itt (Instrs b') tts = Ok False)
            \<and> isClosed n P itt (Instrs b) tts = Ok True)"
    proof
      assume "\<exists>pre b post. a # blocks = pre @ b # post
            \<and> (\<forall>b' \<in> set pre. isClosed n P itt (Instrs b') tts = Ok False)
            \<and> isClosed n P itt (Instrs b) tts = Ok True"
      then obtain pre b post where d: "a # blocks = pre @ b # post"
          and p: "\<forall>b' \<in> set pre. isClosed n P itt (Instrs b') tts = Ok False"
          and c: "isClosed n P itt (Instrs b) tts = Ok True"
        by blast
      then show False using Panic by (cases pre) auto
    qed
    ultimately show ?thesis by simp
  next
    case OutOfFuel
    then have "anyBlockClosed n P itt (a # blocks) tts = OutOfFuel" by simp
    moreover have "\<not> (\<exists>pre b post. a # blocks = pre @ b # post
            \<and> (\<forall>b' \<in> set pre. isClosed n P itt (Instrs b') tts = Ok False)
            \<and> isClosed n P itt (Instrs b) tts = Ok True)"
    proof
      assume "\<exists>pre b post. a # blocks = pre @ b # post
            \<and> (\<forall>b' \<in> set pre. isClosed n P itt (Instrs b') tts = Ok False)
            \<and> isClosed n P itt (Instrs b) tts = Ok True"
      then obtain pre b post where d: "a # blocks = pre @ b # post"
          and p: "\<forall>b' \<in> set pre. isClosed n P itt (Instrs b') tts = Ok False"
          and c: "isClosed n P itt (Instrs b) tts = Ok True"
        by blast
      then show False using OutOfFuel by (cases pre) auto
    qed
    ultimately show ?thesis by simp
  qed
qed




text \<open>
  C6, as the source has it. A call whose callee is not statically resolved, and of which
  neither the value nor the method is named Close, classifies as Unhandled; the same call
  deferred classifies as UnvaluedDefer. Both hold at any fuel, so neither recurses nor
  fails. \<open>isClosed\<close> goes past a referrer that is Unhandled, UnvaluedCall or
  UnvaluedDefer.
\<close>

theorem unresolved_calls:
  "(Value c = Some v \<and> StaticCallee c = None \<and> Name v \<noteq> closeMethod
        \<and> Method c \<noteq> Some closeMethod
     \<longrightarrow> getAction n P itt (Call c) tts = Ok actionUnhandled
         \<and> getAction n P itt (Defer c) tts = Ok actionUnvaluedDefer)
   \<and> (getAction n P itt (instrAt P r) tts = Ok actionUnhandled
        \<or> getAction n P itt (instrAt P r) tts = Ok actionUnvaluedCall
        \<or> getAction n P itt (instrAt P r) tts = Ok actionUnvaluedDefer
     \<longrightarrow> isClosed (Suc n) P itt (r # refs) tts = isClosed (Suc n) P itt refs tts)"
  by (auto simp: isTargetCall_def StaticCallee_def split: option.splits vkind.splits)

text \<open>
  The claim as stated fails: \<^verbatim>\<open>r.Read(buf)\<close> on an \<^verbatim>\<open>io.Reader\<close> is dispatched through
  the interface, and the call is Unhandled, not UnvaluedCall; the deferred \<^verbatim>\<open>Close\<close> of
  a \<^verbatim>\<open>pgx.Rows\<close> interface value is Closed, not UnvaluedDefer.
\<close>

theorem unresolved_calls_counterexample:
  "StaticCallee \<lparr>Value = Some readerValue, Method = Some ''Read''\<rparr> = None
   \<and> getAction 0 exProgram exIsTargetType (Call \<lparr>Value = Some readerValue, Method = Some ''Read''\<rparr>)
         exTargetTypes = Ok actionUnhandled
   \<and> getAction 0 exProgram exIsTargetType (Call \<lparr>Value = Some readerValue, Method = Some ''Read''\<rparr>)
         exTargetTypes \<noteq> Ok actionUnvaluedCall
   \<and> StaticCallee \<lparr>Value = Some pgxRowsValue, Method = Some ''Close''\<rparr> = None
   \<and> getAction 0 exProgram exIsTargetType (Defer \<lparr>Value = Some pgxRowsValue, Method = Some ''Close''\<rparr>)
         exTargetTypes = Ok actionClosed"
  by (simp add: ex_defs)

theorem unresolved_calls_witness:
  "getAction 0 exProgram exIsTargetType (instrAt exProgram 7) exTargetTypes = Ok actionUnhandled
   \<and> getAction 0 exProgram exIsTargetType (instrAt exProgram 14) exTargetTypes
       = Ok actionUnvaluedDefer
   \<and> isClosed (Suc 0) exProgram exIsTargetType [7, 14, 3] exTargetTypes = Ok True
   \<and> isClosed (Suc 0) exProgram exIsTargetType [7, 14] exTargetTypes = Ok False"
  using unresolved_calls
    [of "\<lparr>Value = Some readerValue, Method = Some ''Read''\<rparr>" readerValue 0 exProgram
        exIsTargetType exTargetTypes 7 "[14, 3]"]
  by (simp add: ex_defs)

text \<open>
  \<open>actionUnvaluedCall\<close> is returned for no instruction: the branch that returns it is behind
  a log statement that dereferences the nil value.
\<close>

lemma getAction_never_UnvaluedCall:
  "getAction n P itt ins tts \<noteq> Ok actionUnvaluedCall"
  by (cases ins) (auto split: option.splits vkind.splits result.splits bool.splits if_splits)

section \<open>Fuel and termination\<close>

text \<open>A walk that does not run out of fuel gives the same outcome with more fuel.\<close>

lemma fuel_mono_step:
  "isClosed n P itt refs tts \<noteq> OutOfFuel
     \<Longrightarrow> isClosed (Suc n) P itt refs tts = isClosed n P itt refs tts"
  "getAction n P itt ins tts \<noteq> OutOfFuel
     \<Longrightarrow> getAction (Suc n) P itt ins tts = getAction n P itt ins tts"
  "anyBlockClosed n P itt blocks tts \<noteq> OutOfFuel
     \<Longrightarrow> anyBlockClosed (Suc n) P itt blocks tts = anyBlockClosed n P itt blocks tts"
  "storeClosures n P itt addrRefs tts \<noteq> OutOfFuel
     \<Longrightarrow> storeClosures (Suc n) P itt addrRefs tts = storeClosures n P itt addrRefs tts"
  "unOpTargets n P itt ty refs rest tts \<noteq> OutOfFuel
     \<Longrightarrow> unOpTargets (Suc n) P itt ty refs rest tts = unOpTargets n P itt ty refs rest tts"
proof (induction n P itt refs tts and n P itt ins tts and n P itt blocks tts
         and n P itt addrRefs tts and n P itt ty refs rest tts
       rule: isClosed_getAction_anyBlockClosed_storeClosures_unOpTargets.induct)
  case (1 P isTargetType refs targetTypes)
  then show ?case by simp
next
  case (2 n P isTargetType targetTypes)
  then show ?case by simp
next
  case (3 n P isTargetType r refs targetTypes)
  show ?case
  proof (cases "getAction n P isTargetType (instrAt P r) targetTypes")
    case (Ok a)
    with 3 show ?thesis
      by (cases a) (simp_all del: isClosed.simps(3) add: isClosed.simps(3)[of "Suc n"] isClosed.simps(3)[of n])
  next
    case Panic
    with 3 show ?thesis by simp
  next
    case OutOfFuel
    with 3 show ?thesis by simp
  qed
next
  case (4 n P isTargetType c targetTypes)
  then show ?case
    by (simp split: option.splits if_splits vkind.splits result.splits bool.splits)
next
  case (5 n P isTargetType c targetTypes)
  then show ?case
    by (simp split: option.splits if_splits vkind.splits result.splits bool.splits)
next
  case (6 n P isTargetType targetTypes)
  then show ?case by simp
next
  case (7 n P isTargetType targetTypes)
  then show ?case by simp
next
  case (8 n P isTargetType addr targetTypes)
  then show ?case
    by (simp split: option.splits if_splits vkind.splits result.splits bool.splits)
next
  case (9 n P isTargetType instrType refs targetTypes)
  then show ?case
    by (simp split: option.splits if_splits vkind.splits result.splits bool.splits)
next
  case (10 n P isTargetType refs targetTypes)
  then show ?case
    by (simp split: option.splits if_splits vkind.splits result.splits bool.splits)
next
  case (11 n P isTargetType results targetTypes)
  then show ?case by simp
next
  case (12 n P isTargetType fn targetTypes)
  then show ?case by simp
next
  case (13 n P isTargetType targetTypes)
  then show ?case by simp
next
  case (14 n P isTargetType targetTypes)
  then show ?case by simp
next
  case (15 n P isTargetType b blocks targetTypes)
  then show ?case
    by (simp split: result.splits bool.splits)
next
  case (16 n P isTargetType targetTypes)
  then show ?case by simp
next
  case (17 n P isTargetType aRef addrRefs targetTypes)
  then show ?case
    by (simp split: instruction.splits vkind.splits result.splits bool.splits)
next
  case (18 n P isTargetType instrType refs targetTypes)
  then show ?case by simp
next
  case (19 n P isTargetType instrType refs tt rest targetTypes)
  show ?case
  proof (cases "comparable tt \<and> instrType = tt")
    case True
    show ?thesis
    proof (cases "isClosed n P isTargetType refs targetTypes")
      case (Ok closed)
      with True 19 show ?thesis
        by (cases closed) simp_all
    next
      case Panic
      with True 19 show ?thesis by simp
    next
      case OutOfFuel
      with True 19 show ?thesis by simp
    qed
  next
    case False
    then have "unOpTargets k P isTargetType instrType refs (tt # rest) targetTypes
                 = unOpTargets k P isTargetType instrType refs rest targetTypes" for k
      by auto
    with False 19 show ?thesis by metis
  qed
qed

lemma isClosed_fuel_mono:
  assumes "isClosed n P itt refs tts \<noteq> OutOfFuel" and "n \<le> m"
  shows "isClosed m P itt refs tts = isClosed n P itt refs tts"
  using assms(2,1)
proof (induction m rule: dec_induct)
  case base
  then show ?case by simp
next
  case (step k)
  then show ?case by (simp add: fuel_mono_step(1))
qed

lemma anyBlockClosed_fuel:
  assumes "\<forall>b \<in> set blocks. isClosed m P itt (Instrs b) tts \<noteq> OutOfFuel"
  shows "anyBlockClosed m P itt blocks tts \<noteq> OutOfFuel"
  using assms by (induction blocks) (auto split: result.splits bool.splits)

lemma storeClosures_fuel:
  assumes "\<forall>L. set L \<subseteq> set (closureBodies P addrRefs) \<longrightarrow> isClosed m P itt L tts \<noteq> OutOfFuel"
  shows "storeClosures m P itt addrRefs tts \<noteq> OutOfFuel"
  using assms
proof (induction addrRefs)
  case Nil
  then show ?case by simp
next
  case (Cons aRef addrRefs)
  have rest: "storeClosures m P itt addrRefs tts \<noteq> OutOfFuel"
  proof (rule Cons.IH, intro allI impI)
    fix L
    assume "set L \<subseteq> set (closureBodies P addrRefs)"
    then have "set L \<subseteq> set (closureBodies P (aRef # addrRefs))"
      by auto
    with Cons.prems show "isClosed m P itt L tts \<noteq> OutOfFuel"
      by blast
  qed
  show ?case
  proof (cases "instrAt P aRef")
    case (MakeClosure fn)
    show ?thesis
    proof (cases "kind fn")
      case (IsFunction f)
      have "\<forall>b \<in> set (Blocks f). isClosed m P itt (Instrs b) tts \<noteq> OutOfFuel"
      proof
        fix b
        assume "b \<in> set (Blocks f)"
        then have "set (Instrs b) \<subseteq> set (closureBodies P (aRef # addrRefs))"
          using MakeClosure IsFunction by auto
        with Cons.prems show "isClosed m P itt (Instrs b) tts \<noteq> OutOfFuel"
          by blast
      qed
      then have "anyBlockClosed m P itt (Blocks f) tts \<noteq> OutOfFuel"
        by (rule anyBlockClosed_fuel)
      with MakeClosure IsFunction rest show ?thesis
        by (simp split: result.splits bool.splits)
    qed (use MakeClosure rest in simp_all)
  qed (use rest in simp_all)
qed

lemma unOpTargets_fuel:
  assumes "list_ex (\<lambda>tt. comparable tt \<and> ty = tt) rest \<longrightarrow> isClosed m P itt refs tts \<noteq> OutOfFuel"
  shows "unOpTargets m P itt ty refs rest tts \<noteq> OutOfFuel"
  using assms by (induction rest) (auto split: result.splits bool.splits)

lemma getAction_fuel:
  assumes "\<forall>L. set L \<subseteq> set (walked P itt tts ins) \<longrightarrow> isClosed m P itt L tts \<noteq> OutOfFuel"
  shows "getAction m P itt ins tts \<noteq> OutOfFuel"
proof (cases ins)
  case (Defer c)
  show ?thesis
  proof (cases "Value c")
    case None
    with Defer show ?thesis by simp
  next
    case (Some v)
    show ?thesis
    proof (cases "kind v")
      case (IsFunction f)
      show ?thesis
      proof (cases "Name v = closeMethod \<or> Method c \<noteq> None")
        case True
        with Defer Some show ?thesis by (auto split: if_splits)
      next
        case False
        have "\<forall>b \<in> set (Blocks f). isClosed m P itt (Instrs b) tts \<noteq> OutOfFuel"
        proof
          fix b
          assume "b \<in> set (Blocks f)"
          then have "set (Instrs b) \<subseteq> set (walked P itt tts ins)"
            using Defer Some IsFunction False by auto
          with assms show "isClosed m P itt (Instrs b) tts \<noteq> OutOfFuel"
            by blast
        qed
        then have "anyBlockClosed m P itt (Blocks f) tts \<noteq> OutOfFuel"
          by (rule anyBlockClosed_fuel)
        with Defer Some IsFunction show ?thesis
          by (simp split: option.splits result.splits bool.splits)
      qed
    qed (use Defer Some in \<open>simp_all split: option.splits\<close>)
  qed
next
  case (Call c)
  show ?thesis
  proof (cases "Value c")
    case None
    with Call show ?thesis by simp
  next
    case (Some v)
    show ?thesis
    proof (cases "isTargetCall itt c v tts")
      case True
      with Call Some show ?thesis by simp
    next
      case False
      show ?thesis
      proof (cases "StaticCallee c")
        case None
        with Call Some False show ?thesis by simp
      next
        case (Some f)
        have "\<forall>b \<in> set (Blocks f). isClosed m P itt (Instrs b) tts \<noteq> OutOfFuel"
        proof
          fix b
          assume "b \<in> set (Blocks f)"
          then have "set (Instrs b) \<subseteq> set (walked P itt tts ins)"
            using Call \<open>Value c = Some v\<close> Some False by auto
          with assms show "isClosed m P itt (Instrs b) tts \<noteq> OutOfFuel"
            by blast
        qed
        then have "anyBlockClosed m P itt (Blocks f) tts \<noteq> OutOfFuel"
          by (rule anyBlockClosed_fuel)
        with Call \<open>Value c = Some v\<close> Some False show ?thesis
          by (simp split: result.splits bool.splits)
      qed
    qed
  qed
next
  case (Store addr)
  show ?thesis
  proof (cases "kind addr = IsFieldAddr")
    case True
    with Store show ?thesis by simp
  next
    case False
    show ?thesis
    proof (cases "Referrers addr")
      case None
      with Store False show ?thesis by simp
    next
      case (Some addrRefs)
      have "storeClosures m P itt addrRefs tts \<noteq> OutOfFuel"
        using assms Store False Some by (intro storeClosures_fuel) simp
      with Store False Some show ?thesis
        by (simp split: result.splits bool.splits)
    qed
  qed
next
  case (UnOp ty refs)
  have "unOpTargets m P itt ty refs tts tts \<noteq> OutOfFuel"
    using assms UnOp by (intro unOpTargets_fuel) simp
  with UnOp show ?thesis
    by (simp split: result.splits bool.splits)
next
  case (FieldAddr refs)
  with assms have "isClosed m P itt refs tts \<noteq> OutOfFuel"
    by simp
  with FieldAddr show ?thesis
    by (simp split: result.splits bool.splits)
qed simp_all

lemma isClosed_rank:
  assumes "\<forall>i. rank i < n \<longrightarrow> (\<forall>j \<in> set (walked P itt tts (instrAt P i)). rank j < rank i)"
    and "\<forall>r \<in> set refs. rank r < (n::nat)"
  shows "isClosed (Suc n) P itt refs tts \<noteq> OutOfFuel"
  using assms
proof (induction n arbitrary: refs)
  case 0
  then have "refs = []" by (cases refs) auto
  then show ?case by simp
next
  case (Suc n)
  have low: "\<forall>i. rank i < n \<longrightarrow> (\<forall>j \<in> set (walked P itt tts (instrAt P i)). rank j < rank i)"
    using Suc.prems(1) by simp
  have act: "getAction (Suc n) P itt (instrAt P r) tts \<noteq> OutOfFuel" if "rank r < Suc n" for r
  proof (rule getAction_fuel, intro allI impI)
    fix L
    assume "set L \<subseteq> set (walked P itt tts (instrAt P r))"
    with Suc.prems(1) that have "\<forall>j \<in> set L. rank j < n"
      by fastforce
    with low show "isClosed (Suc n) P itt L tts \<noteq> OutOfFuel"
      by (rule Suc.IH)
  qed
  from Suc.prems(2) show ?case
  proof (induction refs)
    case Nil
    then show ?case by simp
  next
    case (Cons r refs)
    then have "getAction (Suc n) P itt (instrAt P r) tts \<noteq> OutOfFuel"
      by (simp add: act)
    with Cons show ?case
      by (simp split: result.splits action.splits)
  qed
qed

text \<open>
  The recursive call of \<^verbatim>\<open>walk\<close> in its own body is scanned again at every level of
  nesting: the classification of the call asks whether the body is closed, which asks for
  the classification of the call.
\<close>

lemma walk_call:
  "getAction m exProgram exIsTargetType (instrAt exProgram 8) exTargetTypes
     = (case isClosed m exProgram exIsTargetType [8] exTargetTypes of
          Ok True \<Rightarrow> Ok actionClosed
        | Ok False \<Rightarrow> Ok actionUnhandled
        | Panic \<Rightarrow> Panic
        | OutOfFuel \<Rightarrow> OutOfFuel)"
proof -
  have i: "instrAt exProgram 8 = Call \<lparr>Value = Some walkFn, Method = None\<rparr>"
    by (simp add: exProgram_def exInstr_def)
  have t: "\<not> isTargetCall exIsTargetType \<lparr>Value = Some walkFn, Method = None\<rparr> walkFn exTargetTypes"
    by (simp add: isTargetCall_def StaticCallee_def walkFn_def)
  have c: "StaticCallee \<lparr>Value = Some walkFn, Method = None\<rparr>
             = Some \<lparr>Blocks = [\<lparr>Instrs = [8]\<rparr>], Recv = None\<rparr>"
    by (simp add: StaticCallee_def walkFn_def)
  show ?thesis
    unfolding i by (simp add: t c split: result.splits bool.splits)
qed

lemma walk_diverges:
  "isClosed m exProgram exIsTargetType [8] exTargetTypes = OutOfFuel"
proof (induction m)
  case 0
  then show ?case by simp
next
  case (Suc m)
  have "getAction m exProgram exIsTargetType (instrAt exProgram 8) exTargetTypes = OutOfFuel"
    unfolding walk_call using Suc by simp
  then show ?case by simp
qed

lemma exRank_decreases:
  "\<forall>i. exRank i < Suc (Suc 0)
     \<longrightarrow> (\<forall>j \<in> set (walked exProgram exIsTargetType exTargetTypes (instrAt exProgram i)).
            exRank j < exRank i)"
proof (intro allI impI)
  fix i
  assume "exRank i < Suc (Suc 0)"
  then have "i = 3 \<or> i = 9"
    by (simp add: exRank_def split: if_splits)
  then show "\<forall>j \<in> set (walked exProgram exIsTargetType exTargetTypes (instrAt exProgram i)).
            exRank j < exRank i"
  proof
    assume "i = 3"
    then show ?thesis
      by (simp add: exProgram_def exInstr_def rowsClose_def closeMethod_def)
  next
    assume "i = 9"
    then show ?thesis
      by (simp add: exProgram_def exInstr_def closeRowsFn_def closeMethod_def isTargetCall_def
          StaticCallee_def exRank_def)
  qed
qed

text \<open>
  C8: the mutual recursion of \<open>getAction\<close> and \<open>isClosed\<close> has no guard against cycles.
  When the instructions that are walked can be ranked so that every instruction handed on
  by \<open>getAction\<close> (body of a followed callee or closure, referrers of a dereference or
  field address) has a smaller rank, \<open>isClosed\<close> returns with a nesting depth of one more
  than the bound on the ranks, and with any larger one it returns the same; the depth is
  bounded by the nesting of the input only. When a callee calls itself, \<open>isClosed\<close> does
  not return at any depth. In SSA form the referrers of a dereference or field address
  which are walked use its value, so these edges are acyclic by themselves, and the rank is
  the nesting of static callees and closure bodies.
\<close>

theorem walk_termination:
  "((\<forall>i. rank i < n \<longrightarrow> (\<forall>j \<in> set (walked P itt tts (instrAt P i)). rank j < rank i))
      \<and> (\<forall>r \<in> set refs. rank r < n)
     \<longrightarrow> isClosed (Suc n) P itt refs tts \<noteq> OutOfFuel
         \<and> (\<forall>m \<ge> Suc n. isClosed m P itt refs tts = isClosed (Suc n) P itt refs tts))
   \<and> (\<forall>m. isClosed m exProgram exIsTargetType [8] exTargetTypes = OutOfFuel)"
proof (rule conjI)
  show "(\<forall>i. rank i < n \<longrightarrow> (\<forall>j \<in> set (walked P itt tts (instrAt P i)). rank j < rank i))
      \<and> (\<forall>r \<in> set refs. rank r < n)
     \<longrightarrow> isClosed (Suc n) P itt refs tts \<noteq> OutOfFuel
         \<and> (\<forall>m \<ge> Suc n. isClosed m P itt refs tts = isClosed (Suc n) P itt refs tts)"
  proof (rule impI)
    assume h: "(\<forall>i. rank i < n \<longrightarrow> (\<forall>j \<in> set (walked P itt tts (instrAt P i)). rank j < rank i))
      \<and> (\<forall>r \<in> set refs. rank r < n)"
    have ne: "isClosed (Suc n) P itt refs tts \<noteq> OutOfFuel"
      using h[THEN conjunct1] h[THEN conjunct2] by (rule isClosed_rank)
    have "isClosed m P itt refs tts = isClosed (Suc n) P itt refs tts" if "Suc n \<le> m" for m
      using ne that by (rule isClosed_fuel_mono)
    then have "\<forall>m \<ge> Suc n. isClosed m P itt refs tts = isClosed (Suc n) P itt refs tts"
      by blast
    with ne show "isClosed (Suc n) P itt refs tts \<noteq> OutOfFuel
         \<and> (\<forall>m \<ge> Suc n. isClosed m P itt refs tts = isClosed (Suc n) P itt refs tts)"
      by (rule conjI)
  qed
next
  show "\<forall>m. isClosed m exProgram exIsTargetType [8] exTargetTypes = OutOfFuel"
    by (rule allI) (rule walk_diverges)
qed

theorem walk_termination_witness:
  "isClosed (Suc (Suc (Suc 0))) exProgram exIsTargetType [9] exTargetTypes = Ok True
   \<and> isClosed (Suc (Suc (Suc (Suc 0)))) exProgram exIsTargetType [9] exTargetTypes = Ok True
   \<and> isClosed (Suc 0) exProgram exIsTargetType [9] exTargetTypes = OutOfFuel
   \<and> isClosed (Suc (Suc (Suc 0))) exProgram exIsTargetType [8] exTargetTypes = OutOfFuel"
proof -
  note inst = walk_termination
      [of exRank "Suc (Suc 0)" exProgram exIsTargetType exTargetTypes "[9]"]
  have "\<forall>r \<in> set [9]. exRank r < Suc (Suc 0)"
    by (simp add: exRank_def)
  with exRank_decreases
  have hyp: "(\<forall>i. exRank i < Suc (Suc 0)
     \<longrightarrow> (\<forall>j \<in> set (walked exProgram exIsTargetType exTargetTypes (instrAt exProgram i)).
            exRank j < exRank i)) \<and> (\<forall>r \<in> set [9]. exRank r < Suc (Suc 0))"
    by (rule conjI)
  have stable: "\<forall>m \<ge> Suc (Suc (Suc 0)). isClosed m exProgram exIsTargetType [9] exTargetTypes
          = isClosed (Suc (Suc (Suc 0))) exProgram exIsTargetType [9] exTargetTypes"
    using inst[THEN conjunct1, THEN mp, OF hyp] by (rule conjunct2)
  have div: "isClosed (Suc (Suc (Suc 0))) exProgram exIsTargetType [8] exTargetTypes = OutOfFuel"
    using inst[THEN conjunct2] by (rule spec)
  have three: "isClosed (Suc (Suc (Suc 0))) exProgram exIsTargetType [9] exTargetTypes = Ok True"
    by (simp add: ex_defs)
  have le: "Suc (Suc (Suc 0)) \<le> Suc (Suc (Suc (Suc 0)))"
    by simp
  have "isClosed (Suc (Suc (Suc (Suc 0)))) exProgram exIsTargetType [9] exTargetTypes
          = isClosed (Suc (Suc (Suc 0))) exProgram exIsTargetType [9] exTargetTypes"
    using stable[THEN spec, THEN mp, OF le] .
  then have four:
    "isClosed (Suc (Suc (Suc (Suc 0)))) exProgram exIsTargetType [9] exTargetTypes = Ok True"
    using three by (rule trans)
  have one: "isClosed (Suc 0) exProgram exIsTargetType [9] exTargetTypes = OutOfFuel"
    by (simp add: ex_defs)
  from three four one div show ?thesis
    by (intro conjI)
qed

section \<open>Properties of Run\<close>

text \<open>
  C3: when the resolved target types are empty, \<open>Run\<close> returns at once with the pass as
  it was, so without any new diagnostic. Nothing is scanned: the result does not depend on
  the functions of the program, on \<open>getClosableValues\<close> or on the fuel, and it is reached
  with no fuel at all, where any call of \<open>isClosed\<close> or \<open>checkDeferred\<close> would fail.
\<close>

theorem Run_no_target_types:
  assumes "ResultOf p = Some pssa"
    and "getTargetTypes pssa sqlPackages = []"
  shows "Run getTargetTypes getClosableValues isTargetType fuel p = Ok p"
  using assms by (simp add: Run_def)

theorem Run_no_target_types_witness:
  "ResultOf smallPass = Some smallProgram
   \<and> (\<lambda>pssa pkgs. []) smallProgram sqlPackages = ([] :: gotype list)
   \<and> Run (\<lambda>pssa pkgs. []) smallValues exIsTargetType 0 smallPass = Ok smallPass
   \<and> Run (\<lambda>pssa pkgs. exTargetTypes) smallValues exIsTargetType 0 smallPass = OutOfFuel
   \<and> Run (\<lambda>pssa pkgs. exTargetTypes) smallValues exIsTargetType (Suc 0) smallPass
       = Ok \<lparr>ResultOf = Some smallProgram,
              diagnostics = [(101, ''Close should use defer''),
                             (102, ''Rows/Stmt/NamedStmt was not closed'')]\<rparr>"
  using Run_no_target_types
    [of smallPass smallProgram "\<lambda>pssa pkgs. []" smallValues exIsTargetType 0]
  by (simp add: Run_def smallPass_def smallProgram_def smallValues_def ex_defs)

text \<open>
  The pass is only touched through \<open>Reportf\<close>: a change of the pass that commutes with
  \<open>Reportf\<close> commutes with the walk.
\<close>

lemma mapResult_simps [simp]:
  "mapResult g (Ok x) = Ok (g x)" "mapResult g Panic = Panic" "mapResult g OutOfFuel = OutOfFuel"
  by (simp_all add: mapResult_def)










end
